theory Spec2Isabelle
  imports Main "HOL-Library.Word"
begin

unbundle bit_operations_syntax

section \<open>Data model\<close>

text \<open>
  The embedding follows \<^verbatim>\<open>Sources/_TestingInternals/Discovery.cpp\<close> and
  \<^verbatim>\<open>include/Discovery.h\<close> on an LP64/LLP64 target: \<^verbatim>\<open>uintptr_t\<close> and
  \<^verbatim>\<open>size_t\<close> are 64-bit words (\<^verbatim>\<open>sizeof(uintptr_t) = alignof(uintptr_t) = 8\<close>),
  \<^verbatim>\<open>alignof(uint32_t) = 4\<close>, and a pointer is the word holding its address, with
  \<^verbatim>\<open>nullptr\<close> the word 0. A signed field is the word of its bit pattern, read with
  \<open>sint\<close>.
\<close>

type_synonym uintptr_t = "64 word"
type_synonym size_t = "64 word"
type_synonym int32_t = "32 word"

definition sizeof_uintptr_t :: size_t where
  "sizeof_uintptr_t = 8"

definition alignof_uintptr_t :: size_t where
  "alignof_uintptr_t = 8"

definition alignof_uint32_t :: int32_t where
  "alignof_uint32_t = 4"

text \<open>
  \<^verbatim>\<open>SWTTestContentHeader\<close>: three 32-bit fields, 12 bytes. Discovery.h declares the
  fields \<^verbatim>\<open>int32_t\<close> where the platform has no ELF binaries, and takes the platform's
  \<^verbatim>\<open>ElfW(Nhdr)\<close>, whose fields are \<^verbatim>\<open>uint32_t\<close>, where it has. The record holds the
  bit patterns; which of the two types the fields have is a parameter of the walker.
\<close>

record SWTTestContentHeader =
  n_namesz :: int32_t
  n_descsz :: int32_t
  n_type :: int32_t

definition sizeof_header :: size_t where
  "sizeof_header = 12"

datatype header_fields = Int32_Fields | Uint32_Fields

text \<open>The conversion of a size field to \<^verbatim>\<open>size_t\<close>: sign extension or zero extension.\<close>

definition field_to_size_t :: "header_fields \<Rightarrow> int32_t \<Rightarrow> size_t" where
  "field_to_size_t ft w = (case ft of Int32_Fields \<Rightarrow> scast w | Uint32_Fields \<Rightarrow> ucast w)"

text \<open>\<^verbatim>\<open>struct SWTSectionBounds\<close>; the field \<^verbatim>\<open>size\<close> is \<open>size_sb\<close> here.\<close>

record SWTSectionBounds =
  imageAddress :: uintptr_t
  start :: uintptr_t
  size_sb :: size_t

text \<open>
  A call either returns a value or the process crashes on an unmapped read. A loop that
  never returns is the value \<open>None\<close> of the enclosing \<open>option\<close>.
\<close>

datatype 'a outcome = Done 'a | Crash

definition bind_outcome :: "'a outcome option \<Rightarrow> ('a \<Rightarrow> 'b outcome option) \<Rightarrow> 'b outcome option" where
  "bind_outcome m f = (case m of None \<Rightarrow> None | Some Crash \<Rightarrow> Some Crash | Some (Done x) \<Rightarrow> f x)"

text \<open>
  Memory as the record walker reads it: the header stored at an address, if the address is
  mapped.
\<close>

type_synonym memory = "uintptr_t \<rightharpoonup> SWTTestContentHeader"

text \<open>
  \<^verbatim>\<open>SWTTestContentEnumerator\<close>: the visitor receives the image address, the header
  pointer, the current value of \<^verbatim>\<open>*stop\<close> and the state behind \<^verbatim>\<open>context\<close>; it returns
  the new value of \<^verbatim>\<open>*stop\<close> and the new state.
\<close>

type_synonym 'c SWTTestContentEnumerator = "uintptr_t \<Rightarrow> uintptr_t \<Rightarrow> bool \<Rightarrow> 'c \<Rightarrow> bool \<times> 'c"

text \<open>The \<^verbatim>\<open>SectionEnumerator\<close> template parameter: \<^verbatim>\<open>body(sb, &stop)\<close>.\<close>

type_synonym 'c SectionEnumerator = "SWTSectionBounds \<Rightarrow> bool \<Rightarrow> 'c \<Rightarrow> (bool \<times> 'c) outcome option"

section \<open>Record walker\<close>

text \<open>
  Clang's \<^verbatim>\<open>__builtin_align_up(x, a)\<close> on an integer, for a power of two \<open>a\<close>: the
  sum \<open>x + (a - 1)\<close> in the type of \<open>x\<close>, wrapping, with the low bits cleared.
\<close>

definition builtin_align_up :: "'a::len word \<Rightarrow> 'a word \<Rightarrow> 'a word" where
  "builtin_align_up x a = (x + (a - 1)) AND NOT (a - 1)"

text \<open>
  The \<^verbatim>\<open>size\<close> of the lambda \<^verbatim>\<open>next\<close>: the name size is aligned in the 32-bit type
  of the field and converted to \<^verbatim>\<open>size_t\<close> when added to \<^verbatim>\<open>sizeof(*header)\<close>; so is
  \<^verbatim>\<open>n_descsz\<close>.
\<close>

definition record_size :: "header_fields \<Rightarrow> SWTTestContentHeader \<Rightarrow> size_t" where
  "record_size ft header =
     builtin_align_up
       (sizeof_header + field_to_size_t ft (builtin_align_up (n_namesz header) alignof_uint32_t)
          + field_to_size_t ft (n_descsz header))
       alignof_uintptr_t"

text \<open>The lambda \<^verbatim>\<open>next\<close>, given the header read at the address.\<close>

definition next_header :: "header_fields \<Rightarrow> SWTTestContentHeader \<Rightarrow> uintptr_t \<Rightarrow> uintptr_t" where
  "next_header ft header p = p + record_size ft header"

text \<open>
  The \<^verbatim>\<open>for\<close> loop of \<^verbatim>\<open>swt_enumerateTestContent\<close>: while the header address is below
  \<^verbatim>\<open>end\<close>, call the visitor, then read the header to advance. The loop never looks at
  \<^verbatim>\<open>*stop\<close>. It returns the final header address with the flag and the state.
\<close>

partial_function (option) walk_records ::
  "header_fields \<Rightarrow> memory \<Rightarrow> 'c SWTTestContentEnumerator \<Rightarrow> uintptr_t \<Rightarrow> uintptr_t \<Rightarrow> uintptr_t
     \<Rightarrow> bool \<Rightarrow> 'c \<Rightarrow> (uintptr_t \<times> bool \<times> 'c) outcome option" where
  "walk_records ft mem body img end_addr header stop ctx =
     (if header < end_addr then
        (case body img header stop ctx of (stop', ctx') \<Rightarrow>
          (case mem header of
             None \<Rightarrow> Some Crash
           | Some h \<Rightarrow> walk_records ft mem body img end_addr (next_header ft h header) stop' ctx'))
      else Some (Done (header, stop, ctx)))"

text \<open>The lambda that \<^verbatim>\<open>swt_enumerateTestContent\<close> passes as the section enumerator.\<close>

definition walk_section ::
  "header_fields \<Rightarrow> memory \<Rightarrow> 'c SWTTestContentEnumerator \<Rightarrow> 'c SectionEnumerator" where
  "walk_section ft mem body sb stop ctx =
     bind_outcome (walk_records ft mem body (imageAddress sb) (start sb + size_sb sb) (start sb) stop ctx)
       (\<lambda>(header, stop', ctx'). Some (Done (stop', ctx')))"

text \<open>
  The loop shared by the Apple and Windows enumerators:
  \<^verbatim>\<open>for (const auto& sb : list) { body(sb, &stop); if (stop) break; }\<close>.
\<close>

fun section_loop :: "'c SectionEnumerator \<Rightarrow> SWTSectionBounds list \<Rightarrow> bool \<Rightarrow> 'c \<Rightarrow> (bool \<times> 'c) outcome option" where
  "section_loop body [] stop ctx = Some (Done (stop, ctx))"
| "section_loop body (sb # sbs) stop ctx =
     bind_outcome (body sb stop ctx)
       (\<lambda>(stop', ctx'). if stop' then Some (Done (stop', ctx')) else section_loop body sbs stop' ctx')"

text \<open>An observer: the visitor that also appends each call's arguments to a log.\<close>

definition recording ::
  "'c SWTTestContentEnumerator \<Rightarrow> ('c \<times> (uintptr_t \<times> uintptr_t) list) SWTTestContentEnumerator" where
  "recording body img header stop s =
     (case body img header stop (fst s) of (stop', c') \<Rightarrow> (stop', (c', snd s @ [(img, header)])))"

text \<open>The same for a section enumerator.\<close>

definition recording_sections ::
  "'c SectionEnumerator \<Rightarrow> ('c \<times> SWTSectionBounds list) SectionEnumerator" where
  "recording_sections body sb stop s =
     bind_outcome (body sb stop (fst s)) (\<lambda>(stop', c'). Some (Done (stop', (c', snd s @ [sb]))))"

section \<open>Section locator, Apple\<close>

text \<open>
  What the loader callback reads: the \<^verbatim>\<open>flags\<close> word of the Mach header at an address,
  and the result of the platform's
  \<^verbatim>\<open>getsectiondata(mhn, "__DATA_CONST", "__swift5_tests", &size)\<close>, a start pointer
  (null when the section is not found) and the size it stores.
\<close>

record apple_env =
  mach_header_flags :: "uintptr_t \<Rightarrow> 32 word"
  getsectiondata :: "uintptr_t \<Rightarrow> uintptr_t \<times> 64 word"

definition MH_DYLIB_IN_CACHE :: "32 word" where
  "MH_DYLIB_IN_CACHE = 0x80000000"

text \<open>The function given to \<^verbatim>\<open>objc_addLoadImageFunc\<close>, acting on the shared list.\<close>

definition load_image_func :: "apple_env \<Rightarrow> uintptr_t \<Rightarrow> SWTSectionBounds list \<Rightarrow> SWTSectionBounds list" where
  "load_image_func env mh sectionBounds =
     (if mach_header_flags env mh AND MH_DYLIB_IN_CACHE \<noteq> 0 then sectionBounds
      else (case getsectiondata env mh of (start', size') \<Rightarrow>
        if start' \<noteq> 0 \<and> size' > 0
        then sectionBounds @ [\<lparr>imageAddress = mh, start = start', size_sb = size'\<rparr>]
        else sectionBounds))"

text \<open>
  The process state of the Apple backend: whether the \<^verbatim>\<open>dispatch_once\<close> block has run,
  the shared list, and the images loaded so far (the object runtime calls a newly
  registered function for each of them, and then for every image loaded later).
\<close>

record apple_state =
  once :: bool
  sectionBounds :: "SWTSectionBounds list"
  loaded_images :: "uintptr_t list"

definition initial_apple_state :: apple_state where
  "initial_apple_state = \<lparr>once = False, sectionBounds = [], loaded_images = []\<rparr>"

definition getTestContentSections :: "apple_env \<Rightarrow> apple_state \<Rightarrow> SWTSectionBounds list \<times> apple_state" where
  "getTestContentSections env st =
     (let st' = (if once st then st
                 else st\<lparr>once := True, sectionBounds := fold (load_image_func env) (loaded_images st) []\<rparr>)
      in (sectionBounds st', st'))"

text \<open>The loader brings in an image; the callback runs if it is installed.\<close>

definition image_loaded :: "apple_env \<Rightarrow> uintptr_t \<Rightarrow> apple_state \<Rightarrow> apple_state" where
  "image_loaded env mh st =
     st\<lparr>loaded_images := loaded_images st @ [mh],
        sectionBounds := (if once st then load_image_func env mh (sectionBounds st) else sectionBounds st)\<rparr>"

datatype apple_event = ImageLoaded uintptr_t | Snapshot

fun apple_step :: "apple_env \<Rightarrow> apple_event \<Rightarrow> apple_state \<Rightarrow> apple_state" where
  "apple_step env (ImageLoaded mh) st = image_loaded env mh st"
| "apple_step env Snapshot st = snd (getTestContentSections env st)"

definition apple_run :: "apple_env \<Rightarrow> apple_event list \<Rightarrow> apple_state" where
  "apple_run env evs = fold (apple_step env) evs initial_apple_state"

definition enumerateTestContentSections_apple ::
  "apple_env \<Rightarrow> 'c SectionEnumerator \<Rightarrow> apple_state \<Rightarrow> 'c \<Rightarrow> (bool \<times> 'c) outcome option \<times> apple_state" where
  "enumerateTestContentSections_apple env body st ctx =
     (case getTestContentSections env st of (sections, st') \<Rightarrow>
        (section_loop body sections False ctx, st'))"

text \<open>What the claim about the shared list says of one element.\<close>

definition cache_entry_ok :: "apple_env \<Rightarrow> SWTSectionBounds \<Rightarrow> bool" where
  "cache_entry_ok env sb \<longleftrightarrow>
     mach_header_flags env (imageAddress sb) AND MH_DYLIB_IN_CACHE = 0 \<and> start sb \<noteq> 0 \<and> size_sb sb > 0"

section \<open>Section locator, Windows\<close>

record IMAGE_DOS_HEADER =
  e_magic :: "16 word"
  e_lfanew :: "32 word"

record IMAGE_NT_HEADERS =
  Signature :: "32 word"
  NumberOfSections :: "16 word"

record IMAGE_SECTION_HEADER =
  Name :: string
  VirtualSize :: "32 word"
  VirtualAddress :: "32 word"
  SizeOfRawData :: "32 word"

definition IMAGE_DOS_SIGNATURE :: "16 word" where
  "IMAGE_DOS_SIGNATURE = 0x5A4D"

definition IMAGE_NT_SIGNATURE :: "32 word" where
  "IMAGE_NT_SIGNATURE = 0x00004550"

definition IMAGE_SIZEOF_SHORT_NAME :: nat where
  "IMAGE_SIZEOF_SHORT_NAME = 8"

text \<open>
  The image headers as \<^verbatim>\<open>findSection\<close> reads them: the DOS header at the module handle,
  the NT headers at an address, and entry \<open>i\<close> of the section table that
  \<^verbatim>\<open>IMAGE_FIRST_SECTION\<close> finds behind them.
\<close>

record win_memory =
  dos_header_at :: "uintptr_t \<Rightarrow> IMAGE_DOS_HEADER"
  nt_headers_at :: "uintptr_t \<Rightarrow> IMAGE_NT_HEADERS"
  section_table_at :: "uintptr_t \<Rightarrow> nat \<Rightarrow> IMAGE_SECTION_HEADER"

text \<open>
  \<^verbatim>\<open>strncmp\<close>: compares at most \<open>n\<close> characters as unsigned bytes and stops behind a
  NUL; the end of a list is the terminating NUL.
\<close>

fun strncmp :: "string \<Rightarrow> string \<Rightarrow> nat \<Rightarrow> int" where
  "strncmp s1 s2 0 = 0"
| "strncmp s1 s2 (Suc n) =
     (let c1 = (case s1 of [] \<Rightarrow> 0 | c # _ \<Rightarrow> of_char c);
          c2 = (case s2 of [] \<Rightarrow> 0 | c # _ \<Rightarrow> of_char c)
      in if c1 \<noteq> c2 then int c1 - int c2
         else if c1 = (0::nat) then 0
         else strncmp (tl s1) (tl s2) n)"

text \<open>
  The loop over the section table in \<^verbatim>\<open>findSection\<close>, as compiled without
  \<^verbatim>\<open>DEBUG\<close>: the assertions on the two sentinel words are inside \<^verbatim>\<open>#if DEBUG\<close>.
\<close>

fun findSection_loop :: "uintptr_t \<Rightarrow> string \<Rightarrow> IMAGE_SECTION_HEADER list \<Rightarrow> SWTSectionBounds option" where
  "findSection_loop hModule sectionName [] = None"
| "findSection_loop hModule sectionName (section # rest) =
     (if VirtualAddress section = 0 then findSection_loop hModule sectionName rest
      else
        (let start' = hModule + ucast (VirtualAddress section);
             size' = (ucast (min (VirtualSize section) (SizeOfRawData section)) :: size_t)
         in if start' \<noteq> 0 \<and> size' > 0 then
              (if strncmp sectionName (Name section) IMAGE_SIZEOF_SHORT_NAME = 0 then
                 (if size' > 2 * sizeof_uintptr_t
                  then Some \<lparr>imageAddress = hModule, start = start' + sizeof_uintptr_t,
                             size_sb = size' - 2 * sizeof_uintptr_t\<rparr>
                  else findSection_loop hModule sectionName rest)
               else findSection_loop hModule sectionName rest)
            else findSection_loop hModule sectionName rest))"

definition findSection :: "win_memory \<Rightarrow> uintptr_t \<Rightarrow> string \<Rightarrow> SWTSectionBounds option" where
  "findSection mem hModule sectionName =
     (if hModule = 0 then None
      else
        (let dosHeader = dos_header_at mem hModule
         in if e_magic dosHeader \<noteq> IMAGE_DOS_SIGNATURE \<or> sint (e_lfanew dosHeader) \<le> 0 then None
            else
              (let ntHeader = hModule + scast (e_lfanew dosHeader)
               in if ntHeader = 0 \<or> Signature (nt_headers_at mem ntHeader) \<noteq> IMAGE_NT_SIGNATURE then None
                  else findSection_loop hModule sectionName
                         (map (section_table_at mem ntHeader)
                            [0 ..< unat (NumberOfSections (nt_headers_at mem ntHeader))]))))"

text \<open>The first loop of the Windows enumerator, over the module handles in the array.\<close>

fun collect_sections :: "win_memory \<Rightarrow> uintptr_t list \<Rightarrow> SWTSectionBounds list" where
  "collect_sections mem [] = []"
| "collect_sections mem (hModule # hModules) =
     (case findSection mem hModule ''.sw5test'' of
        Some sb \<Rightarrow> sb # collect_sections mem hModules
      | None \<Rightarrow> collect_sections mem hModules)"

text \<open>
  \<^verbatim>\<open>EnumProcessModules\<close> is the platform's: it fails (\<open>None\<close>), or reports the handles
  of all loaded modules, of which the array of 1024 receives the first 1024.
\<close>

definition enumerateTestContentSections_windows ::
  "win_memory \<Rightarrow> uintptr_t list option \<Rightarrow> 'c SectionEnumerator \<Rightarrow> 'c \<Rightarrow> (bool \<times> 'c) outcome option" where
  "enumerateTestContentSections_windows mem EnumProcessModules body ctx =
     (case EnumProcessModules of
        None \<Rightarrow> Some (Done (False, ctx))
      | Some modules \<Rightarrow>
          (let hModuleCount = min 1024 (length modules)
           in section_loop body (collect_sections mem (take hModuleCount modules)) False ctx))"

section \<open>Section locator, ELF\<close>

record Elf_Phdr =
  p_type :: "32 word"
  p_vaddr :: "64 word"
  p_memsz :: "64 word"

text \<open>\<^verbatim>\<open>struct dl_phdr_info\<close>; \<^verbatim>\<open>dlpi_phnum\<close> is the length of \<open>dlpi_phdr\<close>.\<close>

record dl_phdr_info =
  dlpi_addr :: "64 word"
  dlpi_phdr :: "Elf_Phdr list"

definition PT_NOTE :: "32 word" where
  "PT_NOTE = 4"

text \<open>The \<^verbatim>\<open>for\<close> loop of the callback given to \<^verbatim>\<open>dl_iterate_phdr\<close>.\<close>

fun phdr_loop :: "'c SectionEnumerator \<Rightarrow> uintptr_t \<Rightarrow> Elf_Phdr list \<Rightarrow> bool \<Rightarrow> 'c \<Rightarrow> (bool \<times> 'c) outcome option" where
  "phdr_loop body addr [] stop ctx = Some (Done (stop, ctx))"
| "phdr_loop body addr (phdr # rest) stop ctx =
     (if stop then Some (Done (stop, ctx))
      else if p_type phdr = PT_NOTE then
        bind_outcome
          (body \<lparr>imageAddress = addr, start = addr + p_vaddr phdr, size_sb = p_memsz phdr\<rparr> stop ctx)
          (\<lambda>(stop', ctx'). phdr_loop body addr rest stop' ctx')
      else phdr_loop body addr rest stop ctx)"

text \<open>
  \<^verbatim>\<open>dl_iterate_phdr\<close> is the platform's: it calls the callback for each loaded object
  in turn until one call returns non-zero. The callback returns its \<^verbatim>\<open>stop\<close>.
\<close>

fun enumerateTestContentSections_elf ::
  "'c SectionEnumerator \<Rightarrow> dl_phdr_info list \<Rightarrow> 'c \<Rightarrow> (bool \<times> 'c) outcome option" where
  "enumerateTestContentSections_elf body [] ctx = Some (Done (False, ctx))"
| "enumerateTestContentSections_elf body (info # infos) ctx =
     bind_outcome (phdr_loop body (dlpi_addr info) (dlpi_phdr info) False ctx)
       (\<lambda>(stop, ctx'). if stop then Some (Done (stop, ctx'))
                        else enumerateTestContentSections_elf body infos ctx')"

text \<open>The bounds the ELF callback builds from the headers of one image.\<close>

definition note_sections :: "dl_phdr_info \<Rightarrow> SWTSectionBounds list" where
  "note_sections info =
     map (\<lambda>phdr. \<lparr>imageAddress = dlpi_addr info, start = dlpi_addr info + p_vaddr phdr,
                   size_sb = p_memsz phdr\<rparr>)
       (filter (\<lambda>phdr. p_type phdr = PT_NOTE) (dlpi_phdr info))"

section \<open>Platforms without a backend\<close>

definition enumerateTestContentSections_unsupported :: "'c SectionEnumerator \<Rightarrow> 'c \<Rightarrow> (bool \<times> 'c) outcome option" where
  "enumerateTestContentSections_unsupported body ctx = Some (Done (False, ctx))"

text \<open>
  With \<^verbatim>\<open>SWT_NO_DYNAMIC_LINKING\<close> the file declares \<^verbatim>\<open>enumerateTestContentSections\<close>
  and never defines it; the function it defines instead, \<^verbatim>\<open>enumerateTypeMetadataSections\<close>,
  is called by nothing and names a template \<^verbatim>\<open>SWTSectionBounds<SWTTypeMetadataRecord>\<close>
  that does not exist. That configuration has no enumeration to embed.
\<close>

section \<open>The entry point\<close>

text \<open>
  \<^verbatim>\<open>swt_enumerateTestContent\<close> with each backend. Mach-O and COFF platforms have the
  \<^verbatim>\<open>int32_t\<close> header, ELF platforms have \<^verbatim>\<open>ElfW(Nhdr)\<close>.
\<close>

definition swt_enumerateTestContent_apple ::
  "apple_env \<Rightarrow> memory \<Rightarrow> apple_state \<Rightarrow> 'c \<Rightarrow> 'c SWTTestContentEnumerator
     \<Rightarrow> (bool \<times> 'c) outcome option \<times> apple_state" where
  "swt_enumerateTestContent_apple env mem st ctx body =
     enumerateTestContentSections_apple env (walk_section Int32_Fields mem body) st ctx"

definition swt_enumerateTestContent_windows ::
  "win_memory \<Rightarrow> uintptr_t list option \<Rightarrow> memory \<Rightarrow> 'c \<Rightarrow> 'c SWTTestContentEnumerator
     \<Rightarrow> (bool \<times> 'c) outcome option" where
  "swt_enumerateTestContent_windows wmem EnumProcessModules mem ctx body =
     enumerateTestContentSections_windows wmem EnumProcessModules (walk_section Int32_Fields mem body) ctx"

definition swt_enumerateTestContent_elf ::
  "dl_phdr_info list \<Rightarrow> memory \<Rightarrow> 'c \<Rightarrow> 'c SWTTestContentEnumerator \<Rightarrow> (bool \<times> 'c) outcome option" where
  "swt_enumerateTestContent_elf infos mem ctx body =
     enumerateTestContentSections_elf (walk_section Uint32_Fields mem body) infos ctx"

section \<open>Record layout as the specification describes it\<close>

text \<open>
  The framing over the natural numbers: \<open>alignUp\<close> rounds up to a multiple, and a record
  with name size \<open>a\<close> and description size \<open>b\<close> occupies
  \<open>alignUp (headerSize + alignUp a 4 + b) pointerSize\<close> bytes.
\<close>

definition alignUp :: "nat \<Rightarrow> nat \<Rightarrow> nat" where
  "alignUp n a = ((n + (a - 1)) div a) * a"

definition framing_size :: "nat \<Rightarrow> nat \<Rightarrow> nat" where
  "framing_size a b = alignUp (12 + alignUp a 4 + b) 8"

definition encode_header :: "nat \<Rightarrow> nat \<Rightarrow> int32_t \<Rightarrow> SWTTestContentHeader" where
  "encode_header a b t = \<lparr>n_namesz = of_nat a, n_descsz = of_nat b, n_type = t\<rparr>"

definition header_extent :: "SWTTestContentHeader \<Rightarrow> nat" where
  "header_extent h = framing_size (nat (sint (n_namesz h))) (nat (sint (n_descsz h)))"

text \<open>
  The bounds under which the code's arithmetic is that of the specification: both sizes are
  non-negative as \<^verbatim>\<open>int32_t\<close> and the name size, padded to four bytes, still is.
\<close>

definition well_formed :: "SWTTestContentHeader \<Rightarrow> bool" where
  "well_formed h \<longleftrightarrow> 0 \<le> sint (n_namesz h) \<and> sint (n_namesz h) \<le> 2 ^ 31 - 4 \<and> 0 \<le> sint (n_descsz h)"

text \<open>Records back to back from an address: where the headers lie, and the bytes they fill.\<close>

fun section_layout :: "uintptr_t \<Rightarrow> SWTTestContentHeader list \<Rightarrow> uintptr_t list" where
  "section_layout p [] = []"
| "section_layout p (h # hs) = p # section_layout (p + of_nat (header_extent h)) hs"

fun section_bytes :: "SWTTestContentHeader list \<Rightarrow> nat" where
  "section_bytes [] = 0"
| "section_bytes (h # hs) = header_extent h + section_bytes hs"

fun holds_records :: "memory \<Rightarrow> uintptr_t \<Rightarrow> SWTTestContentHeader list \<Rightarrow> bool" where
  "holds_records mem p [] = True"
| "holds_records mem p (h # hs) =
     (mem p = Some h \<and> holds_records mem (p + of_nat (header_extent h)) hs)"

text \<open>The visitor run over a list of header addresses, as the walk of a section runs it.\<close>

definition visit_all :: "'c SWTTestContentEnumerator \<Rightarrow> uintptr_t \<Rightarrow> uintptr_t list \<Rightarrow> bool \<times> 'c \<Rightarrow> bool \<times> 'c" where
  "visit_all body img ps s = fold (\<lambda>p (stop, ctx). body img p stop ctx) ps s"

section \<open>Concrete inputs\<close>

text \<open>
  A section of 32 bytes at address 0x1000 with two records whose name and description are
  empty: each is the 12 bytes of its header padded to 16.
\<close>

definition two_records :: memory where
  "two_records = [0x1000 \<mapsto> encode_header 0 0 0, 0x1010 \<mapsto> encode_header 0 0 0]"

definition two_records_bounds :: SWTSectionBounds where
  "two_records_bounds = \<lparr>imageAddress = 0x400, start = 0x1000, size_sb = 32\<rparr>"




text \<open>A header with non-negative sizes for which the computed record size wraps to 0.\<close>

definition stuck_header :: SWTTestContentHeader where
  "stuck_header = \<lparr>n_namesz = 0x7FFFFFFF, n_descsz = 0x7FFFFFF4, n_type = 0\<rparr>"

definition stuck_memory :: memory where
  "stuck_memory = [0x1000 \<mapsto> stuck_header]"

text \<open>Visitors: one sets \<^verbatim>\<open>*stop\<close> at every call, one leaves it alone.\<close>

definition stop_at_once :: "unit SWTTestContentEnumerator" where
  "stop_at_once img header stop ctx = (True, ctx)"

definition never_stop :: "unit SWTTestContentEnumerator" where
  "never_stop img header stop ctx = (stop, ctx)"

text \<open>
  An Apple process: the image at 0x2000 lies in the shared cache, the image at 0x400 has
  the section, any other image has none.
\<close>

definition demo_apple_env :: apple_env where
  "demo_apple_env =
     \<lparr>mach_header_flags = (\<lambda>mh. if mh = 0x2000 then 0x80000085 else 0x00200085),
      getsectiondata = (\<lambda>mh. if mh = 0x400 then (0x1000, 32) else if mh = 0x2000 then (0x3000, 64) else (0, 0))\<rparr>"

text \<open>
  A Windows process: the module at 0x400 has valid headers and two sections, the second
  named \<^verbatim>\<open>.sw5test\<close> at the given virtual address, 48 bytes long; no other address
  holds a DOS header.
\<close>

definition text_section :: IMAGE_SECTION_HEADER where
  "text_section = \<lparr>Name = ''.text'', VirtualSize = 0x700, VirtualAddress = 0x200, SizeOfRawData = 0x800\<rparr>"

definition sw5test_section :: "32 word \<Rightarrow> IMAGE_SECTION_HEADER" where
  "sw5test_section va = \<lparr>Name = ''.sw5test'', VirtualSize = 48, VirtualAddress = va, SizeOfRawData = 512\<rparr>"

definition win_memory_with :: "32 word \<Rightarrow> win_memory" where
  "win_memory_with va =
     \<lparr>dos_header_at = (\<lambda>a. if a = 0x400 then \<lparr>e_magic = 0x5A4D, e_lfanew = 0x80\<rparr>
                            else \<lparr>e_magic = 0, e_lfanew = 0\<rparr>),
      nt_headers_at = (\<lambda>a. if a = 0x480 then \<lparr>Signature = 0x4550, NumberOfSections = 2\<rparr>
                            else \<lparr>Signature = 0, NumberOfSections = 0\<rparr>),
      section_table_at = (\<lambda>a i. if i = 1
                            then sw5test_section va
                            else text_section)\<rparr>"

text \<open>An ELF process: two images, the first with one note segment.\<close>

definition demo_images :: "dl_phdr_info list" where
  "demo_images =
     [\<lparr>dlpi_addr = 0x400,
       dlpi_phdr = [\<lparr>p_type = 1, p_vaddr = 0, p_memsz = 0x800\<rparr>,
                    \<lparr>p_type = 4, p_vaddr = 0xC00, p_memsz = 32\<rparr>]\<rparr>,
      \<lparr>dlpi_addr = 0x8000,
       dlpi_phdr = [\<lparr>p_type = 1, p_vaddr = 0, p_memsz = 0x100\<rparr>]\<rparr>]"

text \<open>A section enumerator that counts its calls and never stops.\<close>

definition count_sections :: "nat SectionEnumerator" where
  "count_sections sb stop n = Some (Done (False, Suc n))"

section \<open>Alignment and the size of a record\<close>

lemma and_not_mask_shift: "(x::'a::len word) AND NOT (mask n) = push_bit n (drop_bit n x)"
  by (rule bit_eqI) (auto simp: bit_simps)

lemma unat_and_not_mask: "unat ((x::'a::len word) AND NOT (mask n)) = (unat x div 2 ^ n) * 2 ^ n"
proof -
  have le: "(unat x div 2 ^ n) * 2 ^ n \<le> unat x"
    by simp
  have "unat x < 2 ^ LENGTH('a)" by (rule unsigned_less)
  with le have lt: "(unat x div 2 ^ n) * 2 ^ n < 2 ^ LENGTH('a)" by linarith
  have "unat (push_bit n (drop_bit n x)) = take_bit LENGTH('a) (push_bit n (drop_bit n (unat x)))"
    by (simp add: unsigned_push_bit_eq unat_drop_bit_eq)
  also have "\<dots> = (unat x div 2 ^ n) * 2 ^ n"
    using lt by (simp add: push_bit_eq_mult drop_bit_eq_div take_bit_nat_eq_self)
  finally show ?thesis by (simp add: and_not_mask_shift)
qed

lemma unat_align_up_4:
  assumes "unat (x::32 word) + 3 < 2 ^ 32"
  shows "unat (builtin_align_up x alignof_uint32_t) = alignUp (unat x) 4"
proof -
  have m: "builtin_align_up x alignof_uint32_t = (x + 3) AND NOT (mask 2)"
    by (simp add: builtin_align_up_def alignof_uint32_t_def mask_eq_exp_minus_1)
  have "unat (x + 3) = unat x + 3"
    using assms by (simp add: unat_add_lem [THEN iffD1])
  then show ?thesis
    unfolding m alignUp_def
    by (simp add: unat_and_not_mask)
qed

lemma unat_align_up_8:
  assumes "unat (x::64 word) + 7 < 2 ^ 64"
  shows "unat (builtin_align_up x alignof_uintptr_t) = alignUp (unat x) 8"
proof -
  have m: "builtin_align_up x alignof_uintptr_t = (x + 7) AND NOT (mask 3)"
    by (simp add: builtin_align_up_def alignof_uintptr_t_def mask_eq_exp_minus_1)
  have "unat (x + 7) = unat x + 7"
    using assms by (simp add: unat_add_lem [THEN iffD1])
  then show ?thesis
    unfolding m alignUp_def
    by (simp add: unat_and_not_mask)
qed

lemma alignUp_4_le: "n \<le> 4 * k \<Longrightarrow> alignUp n 4 \<le> 4 * k"
  unfolding alignUp_def by presburger

lemma alignUp_8_bounds: "n \<le> alignUp n 8 \<and> alignUp n 8 < n + 8"
  unfolding alignUp_def by presburger

lemma uint_nonneg: "0 \<le> sint (w::32 word) \<Longrightarrow> uint w = sint w"
proof -
  assume nn: "0 \<le> sint w"
  have "sint w < 2 ^ (LENGTH(32) - 1)" by (rule sint_lt)
  then have "sint w < 2 ^ 32" by simp
  with nn show ?thesis by (simp add: uint_sint take_bit_int_eq_self)
qed

lemma unat_nonneg: "0 \<le> sint (w::32 word) \<Longrightarrow> unat w = nat (sint w)"
  unfolding unat_eq_nat_uint by (simp only: uint_nonneg)

lemma scast_nonneg: "0 \<le> sint (w::32 word) \<Longrightarrow> unat (scast w :: 64 word) = nat (sint w)"
proof -
  assume nn: "0 \<le> sint w"
  have "sint w < 2 ^ (LENGTH(32) - 1)" by (rule sint_lt)
  also have "\<dots> < (2::int) ^ 64" by simp
  finally have tb: "take_bit 64 (sint w) = sint w"
    using nn by (intro take_bit_int_eq_self)
  have "unat (scast w :: 64 word) = of_nat (nat (take_bit LENGTH(64) (sint w)))"
    unfolding scast_eq unsigned_of_int ..
  also have "\<dots> = nat (sint w)"
    using tb by simp
  finally show ?thesis .
qed

lemma sint_nonneg_if_small: "unat (w::32 word) < 2 ^ 31 \<Longrightarrow> 0 \<le> sint w"
proof -
  assume "unat w < 2 ^ 31"
  then have "unat w < 2147483648" by simp
  then have "int (unat w) < 2147483648" by linarith
  then have "uint w < 2147483648" unfolding uint_nat .
  then have u: "uint w < 2 ^ 31" by simp
  have "sint w = signed_take_bit 31 (uint w)"
    by (simp add: sint_uint)
  also have "\<dots> = uint w"
    using u by (intro signed_take_bit_int_eq_self) (auto intro: order_trans [of _ 0])
  finally show ?thesis by simp
qed

lemma ucast_nonneg: "unat (ucast (w::32 word) :: 64 word) = unat w"
proof -
  have "unat w < 2 ^ LENGTH(32)" by (rule unsigned_less)
  also have "\<dots> < (2::nat) ^ 64" by simp
  finally have "take_bit 64 (unat w) = unat w" by (rule take_bit_nat_eq_self)
  then show ?thesis by (simp add: unsigned_ucast_eq)
qed

lemma field_to_size_t_nonneg:
  "0 \<le> sint w \<Longrightarrow> unat (field_to_size_t ft w) = nat (sint w)"
  by (cases ft) (simp_all add: field_to_size_t_def scast_nonneg ucast_nonneg unat_nonneg)

lemma record_size_framing:
  assumes wf: "well_formed h"
  shows "unat (record_size ft h) = header_extent h"
proof -
  let ?a = "nat (sint (n_namesz h))" and ?b = "nat (sint (n_descsz h))"
  let ?al = "builtin_align_up (n_namesz h) alignof_uint32_t"
  have a: "0 \<le> sint (n_namesz h)" "sint (n_namesz h) \<le> 2 ^ 31 - 4" and b: "0 \<le> sint (n_descsz h)"
    using wf by (simp_all add: well_formed_def)
  have ua: "unat (n_namesz h) = ?a" using a(1) by (rule unat_nonneg)
  have a_le: "?a \<le> 2 ^ 31 - 4" using a by simp
  have b_lt: "?b < 2 ^ 31" using sint_lt [of "n_descsz h"] b by simp
  have al: "unat ?al = alignUp ?a 4"
    using unat_align_up_4 [of "n_namesz h"] a_le ua by simp
  have al_le: "alignUp ?a 4 \<le> 2 ^ 31 - 4"
    using alignUp_4_le [of ?a 536870911] a_le by simp
  have nn: "0 \<le> sint ?al"
    using sint_nonneg_if_small [of ?al] al al_le by simp
  have sc_a: "unat (field_to_size_t ft ?al) = alignUp ?a 4"
    using field_to_size_t_nonneg [OF nn, of ft] unat_nonneg [OF nn] al by simp
  have sc_b: "unat (field_to_size_t ft (n_descsz h)) = ?b"
    using b by (rule field_to_size_t_nonneg)
  have s1: "unat (sizeof_header + field_to_size_t ft ?al) = 12 + alignUp ?a 4"
    using sc_a al_le by (simp add: unat_add_lem [THEN iffD1] sizeof_header_def)
  have s2: "unat (sizeof_header + field_to_size_t ft ?al + field_to_size_t ft (n_descsz h))
            = 12 + alignUp ?a 4 + ?b"
    using s1 sc_b al_le b_lt by (simp add: unat_add_lem [THEN iffD1])
  show ?thesis
    unfolding record_size_def header_extent_def framing_size_def
    using unat_align_up_8 [of "sizeof_header + field_to_size_t ft ?al + field_to_size_t ft (n_descsz h)"]
      s2 al_le b_lt by simp
qed

lemma align_up_int32_max: "builtin_align_up (0x7FFFFFFF :: 32 word) alignof_uint32_t = 0x80000000"
  by (simp add: builtin_align_up_def alignof_uint32_t_def)

lemma record_size_int32_max:
  "record_size Int32_Fields \<lparr>n_namesz = 0x7FFFFFFF, n_descsz = 0, n_type = 0\<rparr> = 0xFFFFFFFF80000010"
  by (simp add: record_size_def field_to_size_t_def align_up_int32_max sizeof_header_def,
      simp add: builtin_align_up_def alignof_uintptr_t_def)

lemma record_size_zero:
  "record_size Int32_Fields \<lparr>n_namesz = 0x7FFFFFFF, n_descsz = 0x7FFFFFF4, n_type = 0\<rparr> = 0"
  by (simp add: record_size_def field_to_size_t_def align_up_int32_max sizeof_header_def,
      simp add: builtin_align_up_def alignof_uintptr_t_def)

lemma extent_arith:
  "12 + x + y \<le> e \<Longrightarrow> e < 12 + x + y + 8 \<Longrightarrow> e mod 8 = 0 \<Longrightarrow> x \<le> 2147483644 \<Longrightarrow> y < 2147483648
     \<Longrightarrow> 16 \<le> (e::nat) \<and> e < 8589934592"
  by presburger

lemma header_extent_bounds:
  assumes wf: "well_formed h"
  shows "16 \<le> header_extent h \<and> header_extent h < 8589934592"
proof -
  let ?a = "nat (sint (n_namesz h))" and ?b = "nat (sint (n_descsz h))"
  have a_le: "?a \<le> 4 * 536870911" using wf by (simp add: well_formed_def nat_le_iff)
  have b_lt: "?b < 2147483648" using sint_lt [of "n_descsz h"] by simp
  have al_le: "alignUp ?a 4 \<le> 4 * 536870911"
    using a_le by (rule alignUp_4_le)
  have "12 + alignUp ?a 4 + ?b \<le> header_extent h" "header_extent h < 12 + alignUp ?a 4 + ?b + 8"
    unfolding header_extent_def framing_size_def
    using alignUp_8_bounds [of "12 + alignUp ?a 4 + ?b"] by simp_all
  moreover have "header_extent h mod 8 = 0"
    unfolding header_extent_def framing_size_def alignUp_def by simp
  ultimately show ?thesis using al_le b_lt by (intro extent_arith) simp_all
qed

lemma unat_of_nat_32: "n < 2 ^ 32 \<Longrightarrow> unat (of_nat n :: 32 word) = n"
  by (simp add: unat_of_nat)

lemma sint_of_nat_small:
  assumes "n < 2 ^ 31"
  shows "sint (of_nat n :: 32 word) = int n"
proof -
  have u: "unat (of_nat n :: 32 word) = n"
    using assms by (intro unat_of_nat_32) simp
  then have "0 \<le> sint (of_nat n :: 32 word)"
    using assms sint_nonneg_if_small [of "of_nat n"] by simp
  then have "nat (sint (of_nat n :: 32 word)) = n"
    using unat_nonneg [of "of_nat n"] u by simp
  with \<open>0 \<le> sint (of_nat n :: 32 word)\<close> show ?thesis by linarith
qed

lemma well_formed_encode:
  assumes "a \<le> 2 ^ 31 - 4" "b < 2 ^ 31"
  shows "well_formed (encode_header a b t)" "header_extent (encode_header a b t) = framing_size a b"
proof -
  have a: "sint (of_nat a :: 32 word) = int a" using assms(1) by (intro sint_of_nat_small) simp
  have b: "sint (of_nat b :: 32 word) = int b" using assms(2) by (intro sint_of_nat_small)
  show "well_formed (encode_header a b t)"
    using assms a b by (simp add: well_formed_def encode_header_def)
  show "header_extent (encode_header a b t) = framing_size a b"
    using a b by (simp add: header_extent_def encode_header_def)
qed

lemma next_header_unat:
  assumes wf: "well_formed h" and fit: "unat p + header_extent h < 2 ^ 64"
  shows "unat (next_header ft h p) = unat p + header_extent h"
  using fit record_size_framing [OF wf, where ft = ft]
  by (simp add: next_header_def unat_add_lem [THEN iffD1])

lemma next_header_of_nat:
  assumes wf: "well_formed h"
  shows "next_header ft h p = p + of_nat (header_extent h)"
proof -
  have "record_size ft h = of_nat (unat (record_size ft h))" by simp
  then show ?thesis
    unfolding record_size_framing [OF wf] by (simp add: next_header_def)
qed

lemma walk_records_returns:
  assumes ok: "\<forall>p h. p < end_addr \<and> mem p = Some h \<longrightarrow> well_formed h \<and> unat p + header_extent h < 2 ^ 64"
  shows "\<exists>r. walk_records ft mem body img end_addr header stop ctx = Some r"
proof (induction "unat end_addr - unat header" arbitrary: header stop ctx rule: less_induct)
  case less
  show ?case
  proof (cases "header < end_addr")
    case False
    then show ?thesis by (subst walk_records.simps) simp
  next
    case True
    obtain stop' ctx' where b: "body img header stop ctx = (stop', ctx')"
      by (cases "body img header stop ctx")
    show ?thesis
    proof (cases "mem header")
      case None
      with True b show ?thesis by (subst walk_records.simps) simp
    next
      case (Some h)
      with ok True have wf: "well_formed h" and fit: "unat header + header_extent h < 2 ^ 64"
        by blast+
      have "unat (next_header ft h header) = unat header + header_extent h"
        using wf fit by (rule next_header_unat)
      moreover have "16 \<le> header_extent h" using header_extent_bounds [OF wf] by simp
      moreover have "unat header < unat end_addr" using True by (simp add: word_less_nat_alt)
      ultimately have "unat end_addr - unat (next_header ft h header) < unat end_addr - unat header"
        by linarith
      from less [OF this] obtain r where
        "walk_records ft mem body img end_addr (next_header ft h header) stop' ctx' = Some r"
        by blast
      with True b Some show ?thesis by (subst walk_records.simps) simp
    qed
  qed
qed

lemma walk_records_stuck:
  assumes "mem header = Some h" "record_size ft h = 0" "header < end_addr"
  shows "walk_records ft mem body img end_addr header stop ctx = None"
proof (cases "walk_records ft mem body img end_addr header stop ctx")
  case None
  then show ?thesis .
next
  case (Some r)
  then have "\<not> (mem header = Some h \<and> record_size ft h = 0 \<and> header < end_addr)"
  proof (rule walk_records.raw_induct
      [rotated, where P = "\<lambda>f m b i e hd s c r. \<not> (m hd = Some h \<and> record_size f h = 0 \<and> hd < e)"])
    fix w :: "header_fields \<Rightarrow> memory \<Rightarrow> 'a SWTTestContentEnumerator \<Rightarrow> uintptr_t \<Rightarrow> uintptr_t \<Rightarrow> uintptr_t
          \<Rightarrow> bool \<Rightarrow> 'a \<Rightarrow> (uintptr_t \<times> bool \<times> 'a) outcome option"
      and f m b i e hd s c r'
    assume IH: "\<And>f m b i e hd s c r. w f m b i e hd s c = Some r \<Longrightarrow>
                  \<not> (m hd = Some h \<and> record_size f h = 0 \<and> hd < e)"
      and step: "(if hd < e then
                    (case b i hd s c of (stop', ctx') \<Rightarrow>
                      (case m hd of None \<Rightarrow> Some Crash
                       | Some h \<Rightarrow> w f m b i e (next_header f h hd) stop' ctx'))
                  else Some (Done (hd, s, c))) = Some r'"
    show "\<not> (m hd = Some h \<and> record_size f h = 0 \<and> hd < e)"
    proof
      assume a: "m hd = Some h \<and> record_size f h = 0 \<and> hd < e"
      obtain stop' ctx' where b: "b i hd s c = (stop', ctx')"
        by (cases "b i hd s c")
      from a b step have "w f m b i e hd stop' ctx' = Some r'"
        by (simp add: next_header_def)
      from IH [OF this] a show False by simp
    qed
  qed
  with assms show ?thesis by simp
qed

section \<open>Framing\<close>

text \<open>
  C3 (as amended). The advance from one header to the next is
  \<open>alignUp (headerSize + alignUp nameSize 4 + descriptionSize) pointerSize\<close> bytes, and the
  framing round-trips for every name size from 0 to \<open>2^31 - 4\<close> and every description
  size from 0 to \<open>2^31 - 1\<close>: the record size computed from the header encoded with
  these sizes is the number of bytes the record was laid out with, and the next header is
  that many bytes further. This holds with either type of the header fields.
\<close>

theorem record_framing_round_trip:
  assumes "a \<le> 2 ^ 31 - 4" and "b < 2 ^ 31"
  shows "unat (record_size ft (encode_header a b t)) = framing_size a b
       \<and> next_header ft (encode_header a b t) p = p + of_nat (framing_size a b)"
  using well_formed_encode [OF assms, of t]
    record_size_framing [where h = "encode_header a b t" and ft = ft]
    next_header_of_nat [where h = "encode_header a b t" and ft = ft and p = p]
  by simp

theorem record_framing_round_trip_witness:
  "(5::nat) \<le> 2 ^ 31 - 4 \<and> (3::nat) < 2 ^ 31
   \<and> unat (record_size Int32_Fields (encode_header 5 3 0)) = 24
   \<and> next_header Int32_Fields (encode_header 5 3 0) 0x1000 = 0x1018"
  using record_framing_round_trip [where a = 5 and b = 3 and ft = Int32_Fields and t = 0 and p = "0x1000"]
  by (simp add: framing_size_def alignUp_def)

text \<open>
  The claim as stated, for every non-negative name size, fails at the largest
  \<^verbatim>\<open>int32_t\<close>: padding it to four bytes wraps to \<open>- 2^31\<close>, which is sign-extended.
\<close>

theorem record_framing_int32_max_counterexample:
  "unat (record_size Int32_Fields (encode_header 2147483647 0 0)) \<noteq> framing_size 2147483647 0"
  by (simp add: encode_header_def record_size_int32_max framing_size_def alignUp_def)

section \<open>Progress and termination of the walk\<close>

text \<open>
  C10 (as amended). For every header whose name size is between 0 and \<open>2^31 - 4\<close> and
  whose description size is non-negative, and whose record does not reach past the end of
  the address space, the next header address exceeds the header's address by at least 16,
  the pointer-aligned size of the header. For every section in which all headers below the
  end address are such headers, the walk returns: the distance to the end address decreases
  at every step.
\<close>

theorem walk_records_progress_and_termination:
  "(\<forall>h p. well_formed h \<and> unat p + header_extent h < 2 ^ 64
       \<longrightarrow> p < next_header ft h p \<and> unat p + 16 \<le> unat (next_header ft h p)
         \<and> (p < end_addr \<longrightarrow> unat end_addr - unat (next_header ft h p) < unat end_addr - unat p))
   \<and> ((\<forall>p h. p < end_addr \<and> mem p = Some h \<longrightarrow> well_formed h \<and> unat p + header_extent h < 2 ^ 64)
       \<longrightarrow> (\<exists>r. walk_records ft mem body img end_addr header stop ctx = Some r))"
proof (intro conjI allI impI)
  fix h and p :: uintptr_t
  assume a: "well_formed h \<and> unat p + header_extent h < 2 ^ 64"
  then have n: "unat (next_header ft h p) = unat p + header_extent h"
    by (simp add: next_header_unat)
  moreover have "16 \<le> header_extent h"
    using a header_extent_bounds [of h] by simp
  ultimately show "unat p + 16 \<le> unat (next_header ft h p)" "p < next_header ft h p"
    by (simp_all add: word_less_nat_alt)
  assume "p < end_addr"
  then have "unat p < unat end_addr" by (simp add: word_less_nat_alt)
  with n \<open>16 \<le> header_extent h\<close>
  show "unat end_addr - unat (next_header ft h p) < unat end_addr - unat p" by linarith
next
  assume "\<forall>p h. p < end_addr \<and> mem p = Some h \<longrightarrow> well_formed h \<and> unat p + header_extent h < 2 ^ 64"
  then show "\<exists>r. walk_records ft mem body img end_addr header stop ctx = Some r"
    by (rule walk_records_returns)
qed

theorem walk_records_progress_and_termination_witness:
  "well_formed (encode_header 0 0 0)
   \<and> 0x1000 < next_header Int32_Fields (encode_header 0 0 0) 0x1000
   \<and> (\<exists>r. walk_records Int32_Fields two_records never_stop 0x400 0x1020 0x1000 False () = Some r)"
proof -
  have wf: "well_formed (encode_header 0 0 0)" "header_extent (encode_header 0 0 0) = 16"
    using well_formed_encode [of 0 0 0] by (simp_all add: framing_size_def alignUp_def)
  have ok: "\<forall>p h. p < 0x1020 \<and> two_records p = Some h \<longrightarrow> well_formed h \<and> unat p + header_extent h < 2 ^ 64"
    using wf by (auto simp: two_records_def split: if_splits)
  have fit: "well_formed (encode_header 0 0 0) \<and> unat (0x1000 :: uintptr_t) + header_extent (encode_header 0 0 0) < 2 ^ 64"
    using wf by simp
  from walk_records_progress_and_termination
    [where ft = Int32_Fields and end_addr = "0x1020" and mem = two_records and body = never_stop
       and img = "0x400" and header = "0x1000" and stop = False and ctx = "()"]
  show ?thesis using ok fit by blast
qed

text \<open>
  The claim as stated, for every header with non-negative sizes, fails: with name size
  \<open>2^31 - 1\<close> and description size \<open>2^31 - 12\<close> the computed record size is 0, the next
  header is the header itself, and the walk of a section holding this header never returns.
\<close>

theorem walk_records_nonnegative_sizes_counterexample:
  "0 \<le> sint (n_namesz stuck_header) \<and> 0 \<le> sint (n_descsz stuck_header)
   \<and> next_header Int32_Fields stuck_header 0x1000 = 0x1000
   \<and> walk_records Int32_Fields stuck_memory never_stop 0x400 0x1010 0x1000 False () = None"
proof -
  have z: "record_size Int32_Fields stuck_header = 0"
    unfolding stuck_header_def by (rule record_size_zero)
  have "walk_records Int32_Fields stuck_memory never_stop 0x400 0x1010 0x1000 False () = None"
    by (rule walk_records_stuck [where h = stuck_header]) (simp_all add: stuck_memory_def z)
  then show ?thesis
    using z by (simp add: next_header_def) (simp add: stuck_header_def)
qed

section \<open>The walk of a section laid out by the specification\<close>

lemma walk_records_exit:
  "\<not> header < end_addr \<Longrightarrow>
   walk_records ft mem body img end_addr header stop ctx = Some (Done (header, stop, ctx))"
  by (subst walk_records.simps) simp

lemma walk_records_step:
  "header < end_addr \<Longrightarrow> mem header = Some h \<Longrightarrow>
   walk_records ft mem body img end_addr header stop ctx =
     walk_records ft mem body img end_addr (next_header ft h header)
       (fst (body img header stop ctx)) (snd (body img header stop ctx))"
  by (subst walk_records.simps) (simp add: case_prod_beta)


lemma visit_all_Cons:
  "visit_all body img (p # ps) s = visit_all body img ps (body img p (fst s) (snd s))"
  by (simp add: visit_all_def case_prod_beta)

lemma visit_all_Nil: "visit_all body img [] s = s"
  by (simp add: visit_all_def)

lemma walk_records_layout:
  assumes "holds_records mem p recs" and "list_all well_formed recs"
    and "unat p + section_bytes recs = unat end_addr"
  shows "walk_records ft mem body img end_addr p stop ctx
           = Some (Done (end_addr, visit_all body img (section_layout p recs) (stop, ctx)))"
  using assms
proof (induction recs arbitrary: p stop ctx)
  case Nil
  then have "p = end_addr" by (simp add: word_unat_eq_iff)
  then show ?case by (simp add: walk_records_exit visit_all_Nil)
next
  case (Cons h hs)
  from Cons.prems have m: "mem p = Some h" and wf: "well_formed h" and wfs: "list_all well_formed hs"
    and rest: "holds_records mem (p + of_nat (header_extent h)) hs"
    by simp_all
  have ext: "16 \<le> header_extent h" using header_extent_bounds [OF wf] by simp
  have "unat end_addr < 2 ^ 64" using unsigned_less [of end_addr] by simp
  with Cons.prems(3) have fit: "unat p + header_extent h < 2 ^ 64" by simp
  have lt: "p < end_addr"
    using Cons.prems(3) ext by (simp add: word_less_nat_alt)
  have nx: "next_header ft h p = p + of_nat (header_extent h)"
    using wf by (rule next_header_of_nat)
  have "unat (next_header ft h p) = unat p + header_extent h"
    using wf fit by (rule next_header_unat)
  with Cons.prems(3) have bytes: "unat (p + of_nat (header_extent h)) + section_bytes hs = unat end_addr"
    by (simp add: nx)
  have step: "walk_records ft mem body img end_addr p stop ctx =
     walk_records ft mem body img end_addr (next_header ft h p)
       (fst (body img p stop ctx)) (snd (body img p stop ctx))"
    using lt m by (rule walk_records_step)
  show ?case
    using Cons.IH [OF rest wfs bytes]
    by (simp add: step nx visit_all_Cons)
qed








lemma zero_header: "well_formed (encode_header 0 0 0)" "header_extent (encode_header 0 0 0) = 16"
  using well_formed_encode [of 0 0 0] by (simp_all add: framing_size_def alignUp_def)

lemma two_records_holds:
  "holds_records two_records 0x1000 [encode_header 0 0 0, encode_header 0 0 0]"
  by (simp add: two_records_def zero_header)

lemma walk_section_layout:
  assumes recs: "holds_records mem (start sb) recs"
      and wfs: "list_all well_formed recs"
      and sz: "unat (size_sb sb) = section_bytes recs"
      and fit: "unat (start sb) + section_bytes recs < 2 ^ 64"
  shows "walk_records ft mem body (imageAddress sb) (start sb + size_sb sb) (start sb) stop ctx
           = Some (Done (start sb + size_sb sb,
                visit_all body (imageAddress sb) (section_layout (start sb) recs) (stop, ctx)))"
    and "walk_section ft mem body sb stop ctx
           = Some (Done (visit_all body (imageAddress sb) (section_layout (start sb) recs) (stop, ctx)))"
proof -
  have e: "unat (start sb + size_sb sb) = unat (start sb) + section_bytes recs"
    using fit sz by (simp add: unat_add_lem [THEN iffD1])
  show w: "walk_records ft mem body (imageAddress sb) (start sb + size_sb sb) (start sb) stop ctx
           = Some (Done (start sb + size_sb sb,
                visit_all body (imageAddress sb) (section_layout (start sb) recs) (stop, ctx)))"
    using recs wfs e [symmetric] by (rule walk_records_layout)
  show "walk_section ft mem body sb stop ctx
           = Some (Done (visit_all body (imageAddress sb) (section_layout (start sb) recs) (stop, ctx)))"
    by (simp add: walk_section_def w bind_outcome_def case_prod_beta)
qed




section \<open>The stop flag\<close>

lemma walk_two_records_stop_at_once:
  "walk_section Int32_Fields two_records (recording stop_at_once) two_records_bounds False ((), [])
     = Some (Done (True, (), [(0x400, 0x1000), (0x400, 0x1010)]))"
proof -
  have wfs: "list_all well_formed [encode_header 0 0 0, encode_header 0 0 0]"
    by (simp add: zero_header)
  have h: "holds_records two_records (start two_records_bounds) [encode_header 0 0 0, encode_header 0 0 0]"
    using two_records_holds by (simp add: two_records_bounds_def)
  have s: "unat (size_sb two_records_bounds) = section_bytes [encode_header 0 0 0, encode_header 0 0 0]"
    by (simp add: two_records_bounds_def zero_header)
  have f: "unat (start two_records_bounds) + section_bytes [encode_header 0 0 0, encode_header 0 0 0] < 2 ^ 64"
    by (simp add: two_records_bounds_def zero_header)
  show ?thesis
    unfolding walk_section_layout(2) [OF h wfs s f]
    by (simp add: two_records_bounds_def visit_all_def recording_def stop_at_once_def zero_header)
qed

text \<open>
  C1. The claim: once the visitor has set the stop flag, no further call of the visitor
  occurs. The code at the two-record section, with the visitor that sets the flag at its
  first call: the second record of the section is visited all the same, both when the
  section loop runs over this section twice (only the second pass is cut off) and when the
  Apple entry point enumerates the one image that holds it.
\<close>

theorem stop_ignored_within_section:
  "section_loop (walk_section Int32_Fields two_records (recording stop_at_once))
     [two_records_bounds, two_records_bounds] False ((), [])
   = Some (Done (True, (), [(0x400, 0x1000), (0x400, 0x1010)]))
   \<and> fst (swt_enumerateTestContent_apple demo_apple_env two_records
            (apple_run demo_apple_env [ImageLoaded 0x400, Snapshot]) ((), []) (recording stop_at_once))
   = Some (Done (True, (), [(0x400, 0x1000), (0x400, 0x1010)]))"
proof -
  have "fst (getTestContentSections demo_apple_env (apple_run demo_apple_env [ImageLoaded 0x400, Snapshot]))
          = [two_records_bounds]"
    by (simp add: apple_run_def initial_apple_state_def image_loaded_def getTestContentSections_def
        load_image_func_def demo_apple_env_def MH_DYLIB_IN_CACHE_def Let_def two_records_bounds_def)
  then show ?thesis
    by (auto simp: swt_enumerateTestContent_apple_def enumerateTestContentSections_apple_def
        walk_two_records_stop_at_once bind_outcome_def split: prod.splits)
qed

section \<open>Empty and absent sections\<close>

lemma walk_section_empty:
  "size_sb sb = 0 \<Longrightarrow> walk_section ft mem body sb stop ctx = Some (Done (stop, ctx))"
  by (simp add: walk_section_def walk_records_exit bind_outcome_def)

lemma take_min_length: "take (min n (length xs)) xs = take n xs"
  by (simp add: min_def)

lemma collect_sections_none:
  "(\<forall>h \<in> set hs. findSection wmem h ''.sw5test'' = None) \<Longrightarrow> collect_sections wmem hs = []"
  by (induction hs) simp_all

lemma phdr_loop_no_note:
  "(\<forall>ph \<in> set phdrs. p_type ph \<noteq> PT_NOTE) \<Longrightarrow> phdr_loop body addr phdrs False ctx = Some (Done (False, ctx))"
  by (induction phdrs) simp_all

lemma elf_no_note:
  "(\<forall>info \<in> set infos. \<forall>ph \<in> set (dlpi_phdr info). p_type ph \<noteq> PT_NOTE)
     \<Longrightarrow> enumerateTestContentSections_elf body infos ctx = Some (Done (False, ctx))"
  by (induction infos) (simp_all add: phdr_loop_no_note bind_outcome_def)


section \<open>The Windows locator\<close>

lemma findSection_loop_append:
  "findSection_loop h n (pre @ rest) =
     (case findSection_loop h n pre of Some sb \<Rightarrow> Some sb | None \<Rightarrow> findSection_loop h n rest)"
  by (induction pre) (simp_all add: Let_def)

lemma collect_sections_append:
  "collect_sections mem (xs @ ys) = collect_sections mem xs @ collect_sections mem ys"
  by (induction xs) (simp_all split: option.splits)

lemma findSection_valid:
  assumes "hModule \<noteq> 0" "e_magic (dos_header_at mem hModule) = IMAGE_DOS_SIGNATURE"
    "0 < sint (e_lfanew (dos_header_at mem hModule))"
    "ntHeader = hModule + scast (e_lfanew (dos_header_at mem hModule))"
    "ntHeader \<noteq> 0" "Signature (nt_headers_at mem ntHeader) = IMAGE_NT_SIGNATURE"
  shows "findSection mem hModule sectionName =
           findSection_loop hModule sectionName
             (map (section_table_at mem ntHeader) [0 ..< unat (NumberOfSections (nt_headers_at mem ntHeader))])"
  using assms by (simp add: findSection_def Let_def)

lemma findSection_invalid:
  assumes "e_magic (dos_header_at mem m) \<noteq> IMAGE_DOS_SIGNATURE
         \<or> sint (e_lfanew (dos_header_at mem m)) \<le> 0
         \<or> Signature (nt_headers_at mem (m + scast (e_lfanew (dos_header_at mem m)))) \<noteq> IMAGE_NT_SIGNATURE"
  shows "findSection mem m sectionName = None"
  using assms by (auto simp: findSection_def Let_def)

lemma demo_table:
  "map (section_table_at (win_memory_with va) 0x480) [0 ..< unat (NumberOfSections (nt_headers_at (win_memory_with va) 0x480))]
     = [text_section, sw5test_section va]"
  by (simp add: win_memory_with_def text_section_def sw5test_section_def upt_rec)

lemma strncmp_sw5test: "strncmp ''.sw5test'' ''.sw5test'' IMAGE_SIZEOF_SHORT_NAME = 0"
  by (simp add: IMAGE_SIZEOF_SHORT_NAME_def eval_nat_numeral)

lemma strncmp_text: "strncmp ''.sw5test'' ''.text'' IMAGE_SIZEOF_SHORT_NAME \<noteq> 0"
  by (simp add: IMAGE_SIZEOF_SHORT_NAME_def eval_nat_numeral)

lemma findSection_demo_table:
  "findSection (win_memory_with va) 0x400 name = findSection_loop 0x400 name [text_section, sw5test_section va]"
proof -
  have v: "(0x400 :: uintptr_t) \<noteq> 0"
    "e_magic (dos_header_at (win_memory_with va) 0x400) = IMAGE_DOS_SIGNATURE"
    "0 < sint (e_lfanew (dos_header_at (win_memory_with va) 0x400))"
    "0x480 = 0x400 + scast (e_lfanew (dos_header_at (win_memory_with va) 0x400))"
    "(0x480 :: uintptr_t) \<noteq> 0"
    "Signature (nt_headers_at (win_memory_with va) 0x480) = IMAGE_NT_SIGNATURE"
    by (simp_all add: win_memory_with_def IMAGE_DOS_SIGNATURE_def IMAGE_NT_SIGNATURE_def)
  show ?thesis
    using findSection_valid [OF v, of name] by (simp only: demo_table)
qed

lemma findSection_demo: "findSection (win_memory_with 0xBF8) 0x400 ''.sw5test''
     = Some \<lparr>imageAddress = 0x400, start = 0x1000, size_sb = 32\<rparr>"
  using strncmp_text strncmp_sw5test
  by (simp add: findSection_demo_table text_section_def sw5test_section_def Let_def sizeof_uintptr_t_def)

lemma findSection_bad_module: "findSection (win_memory_with va) 0x9000 name = None"
  by (rule findSection_invalid) (simp add: win_memory_with_def IMAGE_DOS_SIGNATURE_def)


text \<open>
  C7. A section of size 0 is walked without any call of the visitor and without reading
  memory: the result is the same for every memory, the one with no mapped address
  included. Where a platform yields no section (an empty Apple list, no Windows module
  with the section or a failed module query, no note segment, no backend), the enumeration
  returns with the visitor's log unchanged.
\<close>

theorem empty_or_absent_section_not_visited:
  "(size_sb sb = 0 \<longrightarrow>
      walk_section ft mem (recording body) sb stop (c, log) = Some (Done (stop, (c, log))))
   \<and> (fst (getTestContentSections env st) = [] \<longrightarrow>
      fst (swt_enumerateTestContent_apple env mem st (c, log) (recording body)) = Some (Done (False, (c, log))))
   \<and> ((\<forall>h \<in> set (take 1024 modules). findSection wmem h ''.sw5test'' = None) \<longrightarrow>
      swt_enumerateTestContent_windows wmem (Some modules) mem (c, log) (recording body)
        = Some (Done (False, (c, log))))
   \<and> swt_enumerateTestContent_windows wmem None mem (c, log) (recording body) = Some (Done (False, (c, log)))
   \<and> ((\<forall>info \<in> set infos. \<forall>ph \<in> set (dlpi_phdr info). p_type ph \<noteq> PT_NOTE) \<longrightarrow>
      swt_enumerateTestContent_elf infos mem (c, log) (recording body) = Some (Done (False, (c, log))))
   \<and> enumerateTestContentSections_unsupported (walk_section ft mem (recording body)) (c, log)
        = Some (Done (False, (c, log)))"
proof (intro conjI impI)
  assume "size_sb sb = 0"
  then show "walk_section ft mem (recording body) sb stop (c, log) = Some (Done (stop, (c, log)))"
    by (rule walk_section_empty)
next
  assume "fst (getTestContentSections env st) = []"
  then show "fst (swt_enumerateTestContent_apple env mem st (c, log) (recording body)) = Some (Done (False, (c, log)))"
    by (auto simp: swt_enumerateTestContent_apple_def enumerateTestContentSections_apple_def
        split: prod.splits)
next
  assume "\<forall>h \<in> set (take 1024 modules). findSection wmem h ''.sw5test'' = None"
  then have "collect_sections wmem (take 1024 modules) = []"
    by (rule collect_sections_none)
  then show "swt_enumerateTestContent_windows wmem (Some modules) mem (c, log) (recording body)
        = Some (Done (False, (c, log)))"
    by (simp add: swt_enumerateTestContent_windows_def enumerateTestContentSections_windows_def
        take_min_length)
next
  show "swt_enumerateTestContent_windows wmem None mem (c, log) (recording body) = Some (Done (False, (c, log)))"
    by (simp add: swt_enumerateTestContent_windows_def enumerateTestContentSections_windows_def)
next
  assume "\<forall>info \<in> set infos. \<forall>ph \<in> set (dlpi_phdr info). p_type ph \<noteq> PT_NOTE"
  then show "swt_enumerateTestContent_elf infos mem (c, log) (recording body) = Some (Done (False, (c, log)))"
    unfolding swt_enumerateTestContent_elf_def by (rule elf_no_note)
next
  show "enumerateTestContentSections_unsupported (walk_section ft mem (recording body)) (c, log)
        = Some (Done (False, (c, log)))"
    by (simp add: enumerateTestContentSections_unsupported_def)
qed

theorem empty_or_absent_section_not_visited_witness:
  "walk_section Int32_Fields Map.empty (recording never_stop) \<lparr>imageAddress = 0x400, start = 0x1000, size_sb = 0\<rparr> False ((), [])
     = Some (Done (False, ((), [])))
   \<and> fst (swt_enumerateTestContent_apple demo_apple_env Map.empty initial_apple_state ((), []) (recording never_stop))
     = Some (Done (False, ((), [])))
   \<and> swt_enumerateTestContent_windows (win_memory_with 0xBF8) (Some [0x9000]) Map.empty ((), []) (recording never_stop)
     = Some (Done (False, ((), [])))
   \<and> swt_enumerateTestContent_elf (tl demo_images) Map.empty ((), []) (recording never_stop)
     = Some (Done (False, ((), [])))"
proof -
  have a: "fst (getTestContentSections demo_apple_env initial_apple_state) = []"
    by (simp add: getTestContentSections_def initial_apple_state_def Let_def)
  have w: "\<forall>h \<in> set (take 1024 [0x9000]). findSection (win_memory_with 0xBF8) h ''.sw5test'' = None"
    by (simp add: findSection_bad_module)
  have e: "\<forall>info \<in> set (tl demo_images). \<forall>ph \<in> set (dlpi_phdr info). p_type ph \<noteq> PT_NOTE"
    by (simp add: demo_images_def PT_NOTE_def)
  from empty_or_absent_section_not_visited
    [where sb = "\<lparr>imageAddress = 0x400, start = 0x1000, size_sb = 0\<rparr>" and ft = Int32_Fields
       and mem = Map.empty and body = never_stop and stop = False and c = "()" and log = "[]"
       and env = demo_apple_env and st = initial_apple_state and modules = "[0x9000]"
       and wmem = "win_memory_with 0xBF8" and infos = "tl demo_images"]
  show ?thesis using a w e by simp
qed


lemma findSection_loop_passed_over:
  assumes "\<forall>p \<in> set sections.
             VirtualAddress p = 0 \<or> hModule + ucast (VirtualAddress p) = 0
             \<or> strncmp sectionName (Name p) IMAGE_SIZEOF_SHORT_NAME \<noteq> 0
             \<or> (ucast (min (VirtualSize p) (SizeOfRawData p)) :: size_t) \<le> 2 * sizeof_uintptr_t"
  shows "findSection_loop hModule sectionName sections = None"
  using assms by (induction sections) (auto simp: Let_def)

text \<open>
  C4 (as amended). In a module with valid headers, built without \<^verbatim>\<open>DEBUG\<close>, take a
  section of the table such that every earlier section has virtual address 0, a null
  start, another name in its first 8 bytes, or a size \<open>min VirtualSize SizeOfRawData\<close> of
  at most two pointer sizes. If this section has a non-zero virtual address, a non-null
  start, the wanted name and a size above two pointer sizes, \<^verbatim>\<open>findSection\<close> returns the
  module, the section start plus one pointer size, and the size less two pointer sizes. If
  it has virtual address 0, whatever its name and size, or a size of at most two pointer
  sizes, it is passed over: with no later section that qualifies, the result is absence.
\<close>

theorem findSection_trims_sentinels:
  assumes valid: "hModule \<noteq> 0" "e_magic (dos_header_at mem hModule) = IMAGE_DOS_SIGNATURE"
      "0 < sint (e_lfanew (dos_header_at mem hModule))"
      "ntHeader = hModule + scast (e_lfanew (dos_header_at mem hModule))"
      "ntHeader \<noteq> 0" "Signature (nt_headers_at mem ntHeader) = IMAGE_NT_SIGNATURE"
    and table: "map (section_table_at mem ntHeader) [0 ..< unat (NumberOfSections (nt_headers_at mem ntHeader))]
                  = pre @ section # post"
    and earlier: "\<forall>p \<in> set pre.
             VirtualAddress p = 0 \<or> hModule + ucast (VirtualAddress p) = 0
             \<or> strncmp sectionName (Name p) IMAGE_SIZEOF_SHORT_NAME \<noteq> 0
             \<or> (ucast (min (VirtualSize p) (SizeOfRawData p)) :: size_t) \<le> 2 * sizeof_uintptr_t"
    and size: "size' = ucast (min (VirtualSize section) (SizeOfRawData section))"
  shows "(VirtualAddress section \<noteq> 0 \<and> hModule + ucast (VirtualAddress section) \<noteq> 0
          \<and> strncmp sectionName (Name section) IMAGE_SIZEOF_SHORT_NAME = 0
          \<and> size' > 2 * sizeof_uintptr_t \<longrightarrow>
            findSection mem hModule sectionName =
              Some \<lparr>imageAddress = hModule,
                    start = hModule + ucast (VirtualAddress section) + sizeof_uintptr_t,
                    size_sb = size' - 2 * sizeof_uintptr_t\<rparr>
            \<and> unat (size' - 2 * sizeof_uintptr_t) = unat size' - 2 * 8)
       \<and> ((VirtualAddress section = 0 \<or> size' \<le> 2 * sizeof_uintptr_t)
          \<and> (\<forall>q \<in> set post.
                VirtualAddress q = 0 \<or> hModule + ucast (VirtualAddress q) = 0
                \<or> strncmp sectionName (Name q) IMAGE_SIZEOF_SHORT_NAME \<noteq> 0
                \<or> (ucast (min (VirtualSize q) (SizeOfRawData q)) :: size_t) \<le> 2 * sizeof_uintptr_t) \<longrightarrow>
            findSection mem hModule sectionName = None)"
proof -
  have pre: "findSection_loop hModule sectionName pre = None"
    using earlier by (rule findSection_loop_passed_over)
  have f: "findSection mem hModule sectionName = findSection_loop hModule sectionName (section # post)"
    using findSection_valid [OF valid, of sectionName] table pre
    by (simp add: findSection_loop_append)
  have sub: "size' > 2 * sizeof_uintptr_t \<Longrightarrow> unat (size' - 2 * sizeof_uintptr_t) = unat size' - 2 * 8"
    by (simp add: sizeof_uintptr_t_def unat_sub word_less_nat_alt word_le_nat_alt)
  have pos: "size' > 2 * sizeof_uintptr_t \<Longrightarrow> 0 < size'"
    by (simp add: word_less_nat_alt)
  have hit: "VirtualAddress section \<noteq> 0 \<and> hModule + ucast (VirtualAddress section) \<noteq> 0
          \<and> strncmp sectionName (Name section) IMAGE_SIZEOF_SHORT_NAME = 0
          \<and> size' > 2 * sizeof_uintptr_t \<longrightarrow>
            findSection mem hModule sectionName =
              Some \<lparr>imageAddress = hModule,
                    start = hModule + ucast (VirtualAddress section) + sizeof_uintptr_t,
                    size_sb = size' - 2 * sizeof_uintptr_t\<rparr>
            \<and> unat (size' - 2 * sizeof_uintptr_t) = unat size' - 2 * 8"
    using f size sub pos by (auto simp: Let_def)
  have miss: "(VirtualAddress section = 0 \<or> size' \<le> 2 * sizeof_uintptr_t)
          \<and> (\<forall>q \<in> set post.
                VirtualAddress q = 0 \<or> hModule + ucast (VirtualAddress q) = 0
                \<or> strncmp sectionName (Name q) IMAGE_SIZEOF_SHORT_NAME \<noteq> 0
                \<or> (ucast (min (VirtualSize q) (SizeOfRawData q)) :: size_t) \<le> 2 * sizeof_uintptr_t) \<longrightarrow>
            findSection mem hModule sectionName = None"
  proof
    assume a: "(VirtualAddress section = 0 \<or> size' \<le> 2 * sizeof_uintptr_t)
          \<and> (\<forall>q \<in> set post.
                VirtualAddress q = 0 \<or> hModule + ucast (VirtualAddress q) = 0
                \<or> strncmp sectionName (Name q) IMAGE_SIZEOF_SHORT_NAME \<noteq> 0
                \<or> (ucast (min (VirtualSize q) (SizeOfRawData q)) :: size_t) \<le> 2 * sizeof_uintptr_t)"
    then have "\<forall>q \<in> set (section # post).
                VirtualAddress q = 0 \<or> hModule + ucast (VirtualAddress q) = 0
                \<or> strncmp sectionName (Name q) IMAGE_SIZEOF_SHORT_NAME \<noteq> 0
                \<or> (ucast (min (VirtualSize q) (SizeOfRawData q)) :: size_t) \<le> 2 * sizeof_uintptr_t"
      using size by auto
    then have "findSection_loop hModule sectionName (section # post) = None"
      by (rule findSection_loop_passed_over)
    with f show "findSection mem hModule sectionName = None" by simp
  qed
  from hit miss show ?thesis by (rule conjI)
qed

theorem findSection_trims_sentinels_witness:
  "findSection (win_memory_with 0xBF8) 0x400 ''.sw5test''
     = Some \<lparr>imageAddress = 0x400, start = 0x1000, size_sb = 32\<rparr>"
proof -
  have v: "(0x400 :: uintptr_t) \<noteq> 0"
    "e_magic (dos_header_at (win_memory_with 0xBF8) 0x400) = IMAGE_DOS_SIGNATURE"
    "0 < sint (e_lfanew (dos_header_at (win_memory_with 0xBF8) 0x400))"
    "0x480 = 0x400 + scast (e_lfanew (dos_header_at (win_memory_with 0xBF8) 0x400))"
    "(0x480 :: uintptr_t) \<noteq> 0"
    "Signature (nt_headers_at (win_memory_with 0xBF8) 0x480) = IMAGE_NT_SIGNATURE"
    by (simp_all add: win_memory_with_def IMAGE_DOS_SIGNATURE_def IMAGE_NT_SIGNATURE_def)
  have t: "map (section_table_at (win_memory_with 0xBF8) 0x480)
             [0 ..< unat (NumberOfSections (nt_headers_at (win_memory_with 0xBF8) 0x480))]
           = [text_section] @ sw5test_section 0xBF8 # []"
    by (simp only: demo_table) simp
  have e: "\<forall>p \<in> set [text_section].
             VirtualAddress p = 0 \<or> 0x400 + ucast (VirtualAddress p) = (0 :: uintptr_t)
             \<or> strncmp ''.sw5test'' (Name p) IMAGE_SIZEOF_SHORT_NAME \<noteq> 0
             \<or> (ucast (min (VirtualSize p) (SizeOfRawData p)) :: size_t) \<le> 2 * sizeof_uintptr_t"
    using strncmp_text by (simp add: text_section_def)
  have s: "(48 :: size_t) = ucast (min (VirtualSize (sw5test_section 0xBF8)) (SizeOfRawData (sw5test_section 0xBF8)))"
    by (simp add: sw5test_section_def)
  have q: "VirtualAddress (sw5test_section 0xBF8) \<noteq> 0
      \<and> 0x400 + ucast (VirtualAddress (sw5test_section 0xBF8)) \<noteq> (0 :: uintptr_t)
      \<and> strncmp ''.sw5test'' (Name (sw5test_section 0xBF8)) IMAGE_SIZEOF_SHORT_NAME = 0
      \<and> (48 :: size_t) > 2 * sizeof_uintptr_t"
    using strncmp_sw5test by (simp add: sw5test_section_def sizeof_uintptr_t_def)
  from findSection_trims_sentinels [OF v t e s, THEN conjunct1, rule_format, OF q]
  show ?thesis
    by (simp add: sizeof_uintptr_t_def sw5test_section_def)
qed

text \<open>
  The claim as stated, for every module whose table has a section of the name, fails
  where that section's virtual address is 0: here its size is 48, above two pointer
  sizes, and the result is absence.
\<close>

theorem findSection_unmapped_section_counterexample:
  "strncmp ''.sw5test'' (Name (section_table_at (win_memory_with 0) 0x480 1)) IMAGE_SIZEOF_SHORT_NAME = 0
   \<and> 2 * sizeof_uintptr_t <
       (ucast (min (VirtualSize (section_table_at (win_memory_with 0) 0x480 1))
                   (SizeOfRawData (section_table_at (win_memory_with 0) 0x480 1))) :: size_t)
   \<and> findSection (win_memory_with 0) 0x400 ''.sw5test'' = None"
proof -
  have "findSection (win_memory_with 0) 0x400 ''.sw5test'' = None"
    using strncmp_text
    by (simp add: findSection_demo_table text_section_def sw5test_section_def Let_def)
  moreover have "section_table_at (win_memory_with 0) 0x480 1 = sw5test_section 0"
    by (simp add: win_memory_with_def)
  ultimately show ?thesis
    using strncmp_sw5test by (simp add: sw5test_section_def sizeof_uintptr_t_def)
qed


text \<open>
  C8. A module whose DOS magic, NT header offset or NT signature fails the check yields
  no section, and the modules before and after it are examined as if it were not there:
  the collected sections are those of the other modules, and the enumeration is the one
  without it.
\<close>

theorem invalid_module_is_skipped:
  "(e_magic (dos_header_at mem m) \<noteq> IMAGE_DOS_SIGNATURE
      \<or> sint (e_lfanew (dos_header_at mem m)) \<le> 0
      \<or> Signature (nt_headers_at mem (m + scast (e_lfanew (dos_header_at mem m)))) \<noteq> IMAGE_NT_SIGNATURE)
   \<longrightarrow> findSection mem m sectionName = None
     \<and> collect_sections mem (ms1 @ m # ms2) = collect_sections mem ms1 @ collect_sections mem ms2
     \<and> (length (ms1 @ m # ms2) \<le> 1024 \<longrightarrow>
          enumerateTestContentSections_windows mem (Some (ms1 @ m # ms2)) body ctx
            = enumerateTestContentSections_windows mem (Some (ms1 @ ms2)) body ctx)"
proof (intro impI conjI)
  assume bad: "e_magic (dos_header_at mem m) \<noteq> IMAGE_DOS_SIGNATURE
      \<or> sint (e_lfanew (dos_header_at mem m)) \<le> 0
      \<or> Signature (nt_headers_at mem (m + scast (e_lfanew (dos_header_at mem m)))) \<noteq> IMAGE_NT_SIGNATURE"
  then show "findSection mem m sectionName = None" by (rule findSection_invalid)
  from bad have "findSection mem m ''.sw5test'' = None" by (rule findSection_invalid)
  then show c: "collect_sections mem (ms1 @ m # ms2) = collect_sections mem ms1 @ collect_sections mem ms2"
    by (simp add: collect_sections_append)
  assume "length (ms1 @ m # ms2) \<le> 1024"
  then show "enumerateTestContentSections_windows mem (Some (ms1 @ m # ms2)) body ctx
            = enumerateTestContentSections_windows mem (Some (ms1 @ ms2)) body ctx"
    using c by (simp add: enumerateTestContentSections_windows_def collect_sections_append min_def)
qed

theorem invalid_module_is_skipped_witness:
  "findSection (win_memory_with 0xBF8) 0x9000 ''.sw5test'' = None
   \<and> collect_sections (win_memory_with 0xBF8) [0x9000, 0x400]
        = [\<lparr>imageAddress = 0x400, start = 0x1000, size_sb = 32\<rparr>]
   \<and> enumerateTestContentSections_windows (win_memory_with 0xBF8) (Some [0x9000, 0x400]) count_sections 0
        = Some (Done (False, 1))"
proof -
  have bad: "e_magic (dos_header_at (win_memory_with 0xBF8) 0x9000) \<noteq> IMAGE_DOS_SIGNATURE"
    by (simp add: win_memory_with_def IMAGE_DOS_SIGNATURE_def)
  have one: "enumerateTestContentSections_windows (win_memory_with 0xBF8) (Some [0x400]) count_sections 0
        = Some (Done (False, 1))"
    by (simp add: enumerateTestContentSections_windows_def findSection_demo count_sections_def bind_outcome_def)
  from invalid_module_is_skipped
    [of "win_memory_with 0xBF8" "0x9000" "''.sw5test''" "[]" "[0x400]" count_sections 0]
  show ?thesis
    using bad one by (simp add: findSection_demo)
qed


section \<open>The Apple locator\<close>

lemma load_image_func_ok:
  "list_all (cache_entry_ok env) sbs \<Longrightarrow> list_all (cache_entry_ok env) (load_image_func env mh sbs)"
  by (auto simp: load_image_func_def cache_entry_ok_def split: prod.splits)

lemma fold_load_image_func_ok:
  "list_all (cache_entry_ok env) sbs \<Longrightarrow> list_all (cache_entry_ok env) (fold (load_image_func env) mhs sbs)"
  by (induction mhs arbitrary: sbs) (simp_all add: load_image_func_ok)

lemma getTestContentSections_ok:
  assumes "list_all (cache_entry_ok env) (sectionBounds st)"
  shows "list_all (cache_entry_ok env) (fst (getTestContentSections env st))"
    and "list_all (cache_entry_ok env) (sectionBounds (snd (getTestContentSections env st)))"
  using assms fold_load_image_func_ok [of env "[]" "loaded_images st"]
  by (simp_all add: getTestContentSections_def Let_def)

lemma apple_step_ok:
  "list_all (cache_entry_ok env) (sectionBounds st)
     \<Longrightarrow> list_all (cache_entry_ok env) (sectionBounds (apple_step env ev st))"
  by (cases ev) (simp_all add: image_loaded_def load_image_func_ok getTestContentSections_ok)

lemma fold_apple_step_ok:
  "list_all (cache_entry_ok env) (sectionBounds st)
     \<Longrightarrow> list_all (cache_entry_ok env) (sectionBounds (fold (apple_step env) evs st))"
  by (induction evs arbitrary: st) (simp_all add: apple_step_ok)

lemma apple_run_ok: "list_all (cache_entry_ok env) (sectionBounds (apple_run env evs))"
  unfolding apple_run_def by (rule fold_apple_step_ok) (simp add: initial_apple_state_def)


text \<open>
  C9. After any sequence of image loads and enumerations, every element of the shared
  list, and so of every snapshot, belongs to an image outside the shared cache, has a
  non-null start and a size above 0; the per-image append preserves this.
\<close>

theorem section_cache_invariant:
  "list_all (cache_entry_ok env) (sectionBounds (apple_run env evs))
   \<and> list_all (cache_entry_ok env) (fst (getTestContentSections env (apple_run env evs)))
   \<and> (list_all (cache_entry_ok env) sbs \<longrightarrow> list_all (cache_entry_ok env) (load_image_func env mh sbs))"
  using apple_run_ok [of env evs] getTestContentSections_ok(1) [of env "apple_run env evs"]
    load_image_func_ok [of env sbs mh]
  by simp

theorem section_cache_invariant_witness:
  "sectionBounds (apple_run demo_apple_env [ImageLoaded 0x2000, ImageLoaded 0x400, Snapshot, ImageLoaded 0x5000])
     = [\<lparr>imageAddress = 0x400, start = 0x1000, size_sb = 32\<rparr>]
   \<and> list_all (cache_entry_ok demo_apple_env)
        (sectionBounds (apple_run demo_apple_env [ImageLoaded 0x2000, ImageLoaded 0x400, Snapshot, ImageLoaded 0x5000]))
   \<and> list_all (cache_entry_ok demo_apple_env) (load_image_func demo_apple_env 0x2000 [])"
proof -
  have "sectionBounds (apple_run demo_apple_env [ImageLoaded 0x2000, ImageLoaded 0x400, Snapshot, ImageLoaded 0x5000])
     = [\<lparr>imageAddress = 0x400, start = 0x1000, size_sb = 32\<rparr>]"
    by (simp add: apple_run_def initial_apple_state_def image_loaded_def getTestContentSections_def
        load_image_func_def demo_apple_env_def MH_DYLIB_IN_CACHE_def Let_def)
  then show ?thesis
    using section_cache_invariant
      [of demo_apple_env "[ImageLoaded 0x2000, ImageLoaded 0x400, Snapshot, ImageLoaded 0x5000]" "[]" "0x2000"]
    by simp
qed


section \<open>The ELF locator\<close>

lemma section_loop_append:
  "section_loop body (xs @ ys) False ctx =
     bind_outcome (section_loop body xs False ctx)
       (\<lambda>(stop, ctx'). if stop then Some (Done (stop, ctx')) else section_loop body ys False ctx')"
proof (induction xs arbitrary: ctx)
  case Nil
  show ?case by (simp add: bind_outcome_def)
next
  case (Cons x xs)
  show ?case
    by (cases "body x False ctx")
       (auto simp: bind_outcome_def Cons split: outcome.splits)
qed

lemma phdr_loop_section_loop:
  "phdr_loop body (dlpi_addr info) phdrs False ctx =
     section_loop body
       (map (\<lambda>phdr. \<lparr>imageAddress = dlpi_addr info, start = dlpi_addr info + p_vaddr phdr, size_sb = p_memsz phdr\<rparr>)
          (filter (\<lambda>phdr. p_type phdr = PT_NOTE) phdrs)) False ctx"
proof (induction phdrs arbitrary: ctx)
  case Nil
  show ?case by simp
next
  case (Cons ph phs)
  show ?case
  proof (cases "p_type ph = PT_NOTE")
    case False
    then show ?thesis by (simp add: Cons)
  next
    case True
    show ?thesis
    proof (cases "body \<lparr>imageAddress = dlpi_addr info, start = dlpi_addr info + p_vaddr ph, size_sb = p_memsz ph\<rparr> False ctx")
      case None
      with True show ?thesis by (simp add: bind_outcome_def)
    next
      case (Some r)
      show ?thesis
      proof (cases r)
        case Crash
        with True Some show ?thesis by (simp add: bind_outcome_def)
      next
        case (Done sc)
        obtain s c where sc: "sc = (s, c)" by (cases sc)
        show ?thesis
        proof (cases s)
          case True
          with \<open>p_type ph = PT_NOTE\<close> Some Done sc show ?thesis
            by (cases phs) (simp_all add: bind_outcome_def)
        next
          case False
          with \<open>p_type ph = PT_NOTE\<close> Some Done sc show ?thesis
            by (simp add: bind_outcome_def Cons)
        qed
      qed
    qed
  qed
qed

lemma elf_section_loop:
  "enumerateTestContentSections_elf body infos ctx =
     section_loop body (concat (map note_sections infos)) False ctx"
proof (induction infos arbitrary: ctx)
  case Nil
  show ?case by simp
next
  case (Cons info infos)
  show ?case
    by (simp add: section_loop_append phdr_loop_section_loop note_sections_def [symmetric] Cons
        cong: if_cong)
qed

lemma section_loop_recording_nonstop:
  assumes "\<forall>sb s c. \<exists>c'. body sb s c = Some (Done (False, c'))"
  shows "\<exists>c'. section_loop (recording_sections body) sbs False (c, log) = Some (Done (False, (c', log @ sbs)))"
proof (induction sbs arbitrary: c log)
  case Nil
  show ?case by simp
next
  case (Cons sb sbs)
  from assms obtain c1 where b: "body sb False c = Some (Done (False, c1))" by blast
  from Cons [of c1 "log @ [sb]"] obtain c' where
    "section_loop (recording_sections body) sbs False (c1, log @ [sb]) = Some (Done (False, c', (log @ [sb]) @ sbs))"
    by blast
  moreover have "recording_sections body sb False (c, log) = Some (Done (False, (c1, log @ [sb])))"
    using b by (simp add: recording_sections_def bind_outcome_def)
  ultimately show ?case by (simp add: bind_outcome_def)
qed


text \<open>
  C5. The ELF enumeration is the loop over the bounds built from the note headers of all
  images, in order: image base, base plus virtual address, memory size; other headers
  contribute nothing, no name is compared and nothing is cached. With a visitor that never
  stops, the sections passed to it are exactly these bounds.
\<close>

theorem elf_note_headers_are_the_sections:
  "enumerateTestContentSections_elf body infos ctx
     = section_loop body (concat (map note_sections infos)) False ctx
   \<and> ((\<forall>sb s c. \<exists>c'. body sb s c = Some (Done (False, c'))) \<longrightarrow>
        (\<exists>c'. enumerateTestContentSections_elf (recording_sections body) infos (c, log)
                = Some (Done (False, (c', log @ concat (map note_sections infos))))))"
  using section_loop_recording_nonstop [of body "concat (map note_sections infos)" c log]
  by (simp add: elf_section_loop)

theorem elf_note_headers_are_the_sections_witness:
  "note_sections (hd demo_images) = [\<lparr>imageAddress = 0x400, start = 0x1000, size_sb = 32\<rparr>]
   \<and> (\<exists>c'. enumerateTestContentSections_elf (recording_sections count_sections) demo_images (0, [])
         = Some (Done (False, (c', [\<lparr>imageAddress = 0x400, start = 0x1000, size_sb = 32\<rparr>]))))"
proof -
  have "\<forall>sb s c. \<exists>c'. count_sections sb s c = Some (Done (False, c'))"
    by (simp add: count_sections_def)
  with elf_note_headers_are_the_sections [of count_sections demo_images 0 0 "[]"]
  show ?thesis
    by (simp add: demo_images_def note_sections_def PT_NOTE_def)
qed

end
